theory Spec2Isabelle
  imports Main
begin

section \<open>The image compression handler (\<open>lambda/image_compression.py\<close>)\<close>

text \<open>
  The handler is one Python function, \<open>lambda_handler(event, context)\<close>. Everything it
  does beyond string handling is a call into a collaborator: the object store
  (\<open>s3.get_object\<close>, \<open>s3.put_object\<close>), the metadata table (\<open>put_item\<close>), the imaging
  library (\<open>Image.open\<close>, \<open>thumbnail\<close>, \<open>save\<close>), the identifier generator and the clock.
  The collaborators are parameters of the model (the record \<open>env\<close>); every call the
  handler makes is appended to a trace together with its outcome, and every exception a
  call can raise is a value \<open>Inl e\<close> that the handler, having no \<open>try\<close>, passes on.
\<close>

subsection \<open>Data\<close>

type_synonym bytes = "nat list"

text \<open>The exceptions the collaborators raise, under the names of the error taxonomy.\<close>

datatype error = DecodeError | StoreReadError | StoreWriteError | SchemaError

text \<open>One element of \<open>event['Records']\<close>: \<open>record['s3']['bucket']['name']\<close> and
  \<open>record['s3']['object']['key']\<close>.\<close>

record s3_record =
  bucket_name :: string
  object_key :: string

record event =
  Records :: "s3_record list"

text \<open>The response of \<open>s3.get_object\<close>; \<open>Body\<close> is what \<open>obj["Body"].read()\<close> returns.\<close>

record s3_object =
  Body :: bytes
  ContentType :: string
  ContentLength :: int

text \<open>A Pillow image object: the attributes \<open>format\<close>, \<open>mode\<close>, \<open>size\<close> and the pixel data.\<close>

record image =
  format :: "string option"
  mode :: string
  size_wh :: "nat \<times> nat"
  im :: bytes

text \<open>The \<open>Item\<close> dictionary passed to \<open>metadata_table.put_item\<close>.\<close>

record item =
  imageId :: string
  sourceBucket :: string
  sourceKey :: string
  destBucket :: string
  destKey :: string
  contentType :: string
  sizeOriginal :: int
  resizedAt :: string

text \<open>The calls the handler makes, with their arguments.\<close>

datatype call =
    GetObject string string
  | ImageOpen bytes
  | Thumbnail "nat \<times> nat"
  | Save "string option" bool nat
  | PutObject string string bytes string
  | PutItem item

text \<open>A trace entry is a call and its outcome: \<open>None\<close> when it returned, \<open>Some e\<close> when it
  raised \<open>e\<close>.\<close>

type_synonym entry = "call \<times> error option"

text \<open>
  The collaborators. The stores, the identifier generator and the clock answer as a
  function of the calls made so far in the invocation, so that any stateful store is
  covered; the imaging library computes on its arguments alone. \<open>thumbnail\<close> changes the
  image object in place: the model's \<open>thumbnail\<close> returns the object as it is after the call,
  and \<open>save\<close> returns the bytes written to the buffer.
\<close>

record env =
  get_object :: "entry list \<Rightarrow> string \<Rightarrow> string \<Rightarrow> error + s3_object"
  Image_open :: "bytes \<Rightarrow> error + image"
  thumbnail :: "image \<Rightarrow> nat \<times> nat \<Rightarrow> error + image"
  save :: "image \<Rightarrow> string option \<Rightarrow> bool \<Rightarrow> nat \<Rightarrow> error + bytes"
  put_object :: "entry list \<Rightarrow> string \<Rightarrow> string \<Rightarrow> bytes \<Rightarrow> string \<Rightarrow> error + unit"
  uuid4 :: "entry list \<Rightarrow> string"
  utcnow_isoformat :: "entry list \<Rightarrow> string"
  put_item :: "entry list \<Rightarrow> item \<Rightarrow> error + unit"

subsection \<open>Constants and the derived key\<close>

definition SOURCE_BUCKET :: string where
  "SOURCE_BUCKET = ''source-image-azoz''"

definition DEST_BUCKET :: string where
  "DEST_BUCKET = ''resized-image-azoz''"

text \<open>\<open>str.rfind(c)\<close>: the highest index at which \<open>c\<close> occurs, \<open>-1\<close> when it does not.\<close>

fun rfind :: "string \<Rightarrow> char \<Rightarrow> int" where
  "rfind [] c = - 1"
| "rfind (x # xs) c =
     (let j = rfind xs c
      in if 0 \<le> j then j + 1 else if x = c then 0 else - 1)"

text \<open>\<open>os.path.basename\<close>, which on the handler's platform is \<open>posixpath.basename\<close>:
  \<open>i = p.rfind('/') + 1; return p[i:]\<close>.\<close>

definition basename :: "string \<Rightarrow> string" where
  "basename p = (let i = rfind p (CHR ''/'') + 1 in drop (nat i) p)"

text \<open>\<open>output_key = f"resized-{os.path.basename(key)}"\<close>.\<close>

definition output_key :: "string \<Rightarrow> string" where
  "output_key key = ''resized-'' @ basename key"

subsection \<open>The loop body\<close>

text \<open>
  The body of the \<open>for\<close> loop after the bucket test, for one record, started after the
  calls \<open>h\<close>: the trace of its own calls and either the exception that ended it or
  \<open>Inr ()\<close> when it ran to its end.
\<close>

definition process_record :: "env \<Rightarrow> entry list \<Rightarrow> s3_record \<Rightarrow> entry list \<times> (error + unit)" where
  "process_record env h record =
     (let key = object_key record; bucket = bucket_name record
      in case get_object env h bucket key of
           Inl e \<Rightarrow> ([(GetObject bucket key, Some e)], Inl e)
         | Inr obj \<Rightarrow>
      let t1 = [(GetObject bucket key, None)]; img_data = Body obj
      in case Image_open env img_data of
           Inl e \<Rightarrow> (t1 @ [(ImageOpen img_data, Some e)], Inl e)
         | Inr opened \<Rightarrow>
      let t2 = t1 @ [(ImageOpen img_data, None)]
      in case thumbnail env opened (1024, 1024) of
           Inl e \<Rightarrow> (t2 @ [(Thumbnail (1024, 1024), Some e)], Inl e)
         | Inr img \<Rightarrow>
      let t3 = t2 @ [(Thumbnail (1024, 1024), None)]
      in case save env img (format img) True 70 of
           Inl e \<Rightarrow> (t3 @ [(Save (format img) True 70, Some e)], Inl e)
         | Inr output_buffer \<Rightarrow>
      let t4 = t3 @ [(Save (format img) True 70, None)];
          okey = output_key key;
          put = PutObject DEST_BUCKET okey output_buffer (ContentType obj)
      in case put_object env (h @ t4) DEST_BUCKET okey output_buffer (ContentType obj) of
           Inl e \<Rightarrow> (t4 @ [(put, Some e)], Inl e)
         | Inr _ \<Rightarrow>
      let t5 = t4 @ [(put, None)];
          Item = \<lparr> imageId = uuid4 env (h @ t5),
                   sourceBucket = bucket,
                   sourceKey = key,
                   destBucket = DEST_BUCKET,
                   destKey = okey,
                   contentType = ContentType obj,
                   sizeOriginal = ContentLength obj,
                   resizedAt = utcnow_isoformat env (h @ t5) \<rparr>
      in case put_item env (h @ t5) Item of
           Inl e \<Rightarrow> (t5 @ [(PutItem Item, Some e)], Inl e)
         | Inr _ \<Rightarrow> (t5 @ [(PutItem Item, None)], Inr ()))"

subsection \<open>The loop and the handler\<close>

text \<open>
  \<open>for record in event['Records']\<close>: a record of another bucket is passed over
  (\<open>continue\<close>); an exception in the body ends the loop.
\<close>

fun process_records :: "env \<Rightarrow> entry list \<Rightarrow> s3_record list \<Rightarrow> entry list \<times> (error + unit)" where
  "process_records env h [] = ([], Inr ())"
| "process_records env h (record # rest) =
     (if bucket_name record \<noteq> SOURCE_BUCKET then process_records env h rest
      else case process_record env h record of
             (t, Inl e) \<Rightarrow> (t, Inl e)
           | (t, Inr _) \<Rightarrow>
               (case process_records env (h @ t) rest of (t', res) \<Rightarrow> (t @ t', res)))"

text \<open>The returned dictionary \<open>{"status": "done"}\<close>.\<close>

definition status_done :: "(string \<times> string) list" where
  "status_done = [(''status'', ''done'')]"

definition lambda_handler :: "env \<Rightarrow> event \<Rightarrow> entry list \<times> (error + (string \<times> string) list)" where
  "lambda_handler env ev =
     (case process_records env [] (Records ev) of
        (t, Inl e) \<Rightarrow> (t, Inl e)
      | (t, Inr _) \<Rightarrow> (t, Inr status_done))"

subsection \<open>Reading a trace\<close>

text \<open>The calls that reach a store, and among them the two that write.\<close>

fun store_op :: "call \<Rightarrow> bool" where
  "store_op (GetObject b k) = True"
| "store_op (PutObject b k body ct) = True"
| "store_op (PutItem it) = True"
| "store_op c = False"


fun save_op :: "call \<Rightarrow> bool" where
  "save_op (Save f opt q) = True"
| "save_op c = False"

text \<open>The source objects read, the derivatives written and the metadata records inserted
  by the calls of a trace that returned, in order; a record is listed by the derivative it
  names (\<open>destBucket\<close>, \<open>destKey\<close>).\<close>

fun reads :: "entry list \<Rightarrow> (string \<times> string) list" where
  "reads [] = []"
| "reads ((GetObject b k, None) # t) = (b, k) # reads t"
| "reads (x # t) = reads t"

fun writes :: "entry list \<Rightarrow> (string \<times> string) list" where
  "writes [] = []"
| "writes ((PutObject b k body ct, None) # t) = (b, k) # writes t"
| "writes (x # t) = writes t"

fun inserts :: "entry list \<Rightarrow> (string \<times> string) list" where
  "inserts [] = []"
| "inserts ((PutItem it, None) # t) = (destBucket it, destKey it) # inserts t"
| "inserts (x # t) = inserts t"

text \<open>The records of a batch that pass the bucket test.\<close>

definition matching :: "s3_record list \<Rightarrow> s3_record list" where
  "matching rs = filter (\<lambda>r. bucket_name r = SOURCE_BUCKET) rs"

subsection \<open>Sample collaborators and batches\<close>

definition photo :: s3_object where
  "photo = \<lparr> Body = [255, 216, 255, 224], ContentType = ''image/jpeg'', ContentLength = 4 \<rparr>"

definition decoded :: image where
  "decoded = \<lparr> format = Some ''JPEG'', mode = ''RGB'', size_wh = (2048, 1536), im = [7, 7, 7] \<rparr>"

text \<open>Every call returns.\<close>

definition env_ok :: env where
  "env_ok = \<lparr> get_object = (\<lambda>h b k. Inr photo),
              Image_open = (\<lambda>b. Inr decoded),
              thumbnail = (\<lambda>i s. Inr (i\<lparr>size_wh := (1024, 768), im := [7]\<rparr>)),
              save = (\<lambda>i f opt q. Inr [255, 216]),
              put_object = (\<lambda>h b k body ct. Inr ()),
              uuid4 = (\<lambda>h. ''6f1c'' @ replicate (length h) (CHR ''0'')),
              utcnow_isoformat = (\<lambda>h. ''2024-01-01T00:00:00''),
              put_item = (\<lambda>h it. Inr ()) \<rparr>"

text \<open>The source bytes are not an image.\<close>

definition env_bad_bytes :: env where
  "env_bad_bytes = env_ok \<lparr> Image_open := (\<lambda>b. Inl DecodeError) \<rparr>"

text \<open>The metadata table rejects every insert.\<close>

definition env_table_down :: env where
  "env_table_down = env_ok \<lparr> put_item := (\<lambda>h it. Inl StoreWriteError) \<rparr>"

definition nested :: s3_record where
  "nested = \<lparr> bucket_name = ''source-image-azoz'', object_key = ''folder/sub/photo.jpg'' \<rparr>"

definition foreign :: s3_record where
  "foreign = \<lparr> bucket_name = ''another-bucket'', object_key = ''cat.png'' \<rparr>"

definition flat :: s3_record where
  "flat = \<lparr> bucket_name = ''source-image-azoz'', object_key = ''dog.png'' \<rparr>"

section \<open>Properties\<close>

subsection \<open>The basename of a key\<close>

lemma rfind_lower: "- 1 \<le> rfind p c"
  by (induction p) (auto simp: Let_def)

lemma rfind_absent: "(rfind p c < 0) = (c \<notin> set p)"
  by (induction p) (auto simp: Let_def)

lemma basename_Nil: "basename [] = []"
  by (simp add: basename_def)

lemma basename_Cons:
  "basename (x # xs) =
     (if CHR ''/'' \<in> set xs then basename xs
      else if x = CHR ''/'' then xs else x # xs)"
proof (cases "CHR ''/'' \<in> set xs")
  case True
  then have "0 \<le> rfind xs (CHR ''/'')"
    using rfind_absent [of xs "CHR ''/''"] by auto
  then have "nat (rfind xs CHR ''/'' + 1 + 1) = Suc (nat (rfind xs CHR ''/'' + 1))"
    by simp
  with True \<open>0 \<le> rfind xs (CHR ''/'')\<close> show ?thesis
    by (simp add: basename_def Let_def)
next
  case False
  then have "rfind xs (CHR ''/'') < 0"
    using rfind_absent [of xs "CHR ''/''"] by auto
  with False show ?thesis
    by (auto simp: basename_def Let_def)
qed

lemma basename_no_sep: "CHR ''/'' \<notin> set (basename p)"
  by (induction p) (auto simp: basename_Nil basename_Cons)

lemma basename_suffix:
  "\<exists>d. p = d @ basename p \<and> (d = [] \<or> last d = CHR ''/'')"
proof (induction p)
  case Nil
  show ?case by (simp add: basename_Nil)
next
  case (Cons x xs)
  then obtain d where d: "xs = d @ basename xs" "d = [] \<or> last d = CHR ''/''"
    by blast
  show ?case
  proof (cases "CHR ''/'' \<in> set xs")
    case True
    with d basename_no_sep [of xs] have "d \<noteq> []" by auto
    with d True have "x # xs = (x # d) @ basename (x # xs) \<and> last (x # d) = CHR ''/''"
      by (simp add: basename_Cons)
    then show ?thesis by blast
  next
    case False
    show ?thesis
    proof (cases "x = CHR ''/''")
      case True
      with False have "x # xs = [x] @ basename (x # xs) \<and> last [x] = CHR ''/''"
        by (simp add: basename_Cons)
      then show ?thesis by blast
    next
      case F2: False
      with False have "x # xs = [] @ basename (x # xs)"
        by (simp add: basename_Cons)
      then show ?thesis by blast
    qed
  qed
qed

lemma basename_path: "CHR ''/'' \<notin> set f \<Longrightarrow> basename (d @ CHR ''/'' # f) = f"
  by (induction d) (auto simp: basename_Cons)

lemma basename_plain: "CHR ''/'' \<notin> set f \<Longrightarrow> basename f = f"
  by (cases f) (auto simp: basename_Cons basename_Nil)

subsection \<open>The shape of a trace\<close>

text \<open>The loop over a batch cut in two: the second part runs after the calls of the first,
  unless the first ended in an exception.\<close>

lemma process_records_append:
  "process_records env h (xs @ ys) =
     (case process_records env h xs of
        (t, Inl e) \<Rightarrow> (t, Inl e)
      | (t, Inr u) \<Rightarrow> (case process_records env (h @ t) ys of (t', res) \<Rightarrow> (t @ t', res)))"
  by (induction xs arbitrary: h) (auto split: prod.splits sum.splits)

text \<open>Only the last call of a trace can have raised, and it has exactly when the result is
  that exception.\<close>

lemma process_record_shape:
  assumes "process_record env h r = (t, res)"
  shows "\<exists>t0 c. t = t0 @ [(c, case res of Inl e \<Rightarrow> Some e | Inr u \<Rightarrow> None)]
           \<and> (\<forall>x\<in>set t0. snd x = None)"
  using assms
  by (auto simp: process_record_def Let_def split: sum.splits)

lemma process_records_shape:
  assumes "process_records env h rs = (t, res)"
  shows "case res of
           Inr u \<Rightarrow> \<forall>x\<in>set t. snd x = None
         | Inl e \<Rightarrow> \<exists>t0 c. t = t0 @ [(c, Some e)] \<and> (\<forall>x\<in>set t0. snd x = None)"
  using assms
proof (induction rs arbitrary: h t res)
  case Nil
  then show ?case by auto
next
  case (Cons r rs)
  show ?case
  proof (cases "bucket_name r \<noteq> SOURCE_BUCKET")
    case True
    with Cons show ?thesis by simp
  next
    case False
    obtain t1 res1 where pr: "process_record env h r = (t1, res1)"
      by (cases "process_record env h r") auto
    from process_record_shape [OF pr] obtain t0 c where
      sh: "t1 = t0 @ [(c, case res1 of Inl e \<Rightarrow> Some e | Inr u \<Rightarrow> None)]" "\<forall>x\<in>set t0. snd x = None"
      by blast
    show ?thesis
    proof (cases res1)
      case (Inl e)
      with False pr Cons.prems have "t = t1" "res = Inl e" by auto
      with sh Inl show ?thesis by auto
    next
      case (Inr u)
      obtain t2 res2 where rest: "process_records env (h @ t1) rs = (t2, res2)"
        by (cases "process_records env (h @ t1) rs") auto
      with False pr Inr Cons.prems have eq: "t = t1 @ t2" "res = res2" by auto
      from sh Inr have ok1: "\<forall>x\<in>set t1. snd x = None" by auto
      from Cons.IH [OF rest] show ?thesis
      proof (cases res2)
        case (Inl e)
        with Cons.IH [OF rest] obtain s0 c' where
          "t2 = s0 @ [(c', Some e)]" "\<forall>x\<in>set s0. snd x = None" by auto
        with ok1 eq have "t = (t1 @ s0) @ [(c', Some e)]" "\<forall>x\<in>set (t1 @ s0). snd x = None"
          by auto
        then have "\<exists>t0 c. t = t0 @ [(c, Some e)] \<and> (\<forall>x\<in>set t0. snd x = None)"
          by blast
        with eq Inl show ?thesis by simp
      next
        case (Inr u')
        with Cons.IH [OF rest] ok1 eq show ?thesis by auto
      qed
    qed
  qed
qed


lemma process_records_failed:
  assumes "process_records env h rs = (t, Inl e)"
  shows "process_records env h (rs @ post) = (t, Inl e)"
  using assms by (simp add: process_records_append)

lemma process_records_skip:
  assumes "bucket_name r \<noteq> SOURCE_BUCKET"
  shows "process_records env h (pre @ r # post) = process_records env h (pre @ post)"
  using assms by (simp add: process_records_append split: prod.splits sum.splits)

subsection \<open>The calls of one notification inside a batch\<close>


subsection \<open>What a trace reads, writes and inserts\<close>

lemma reads_append: "reads (a @ b) = reads a @ reads b"
  by (induction a rule: reads.induct) auto

lemma writes_append: "writes (a @ b) = writes a @ writes b"
  by (induction a rule: writes.induct) auto

lemma inserts_append: "inserts (a @ b) = inserts a @ inserts b"
  by (induction a rule: inserts.induct) auto

lemma process_record_done:
  assumes "process_record env h r = (t, Inr u)"
  shows "reads t = [(bucket_name r, object_key r)]
       \<and> writes t = [(DEST_BUCKET, output_key (object_key r))]
       \<and> inserts t = [(DEST_BUCKET, output_key (object_key r))]"
  using assms
  by (auto simp: process_record_def Let_def split: sum.splits)


lemma process_records_done:
  assumes "process_records env h rs = (t, Inr u)"
  shows "reads t = map (\<lambda>r. (bucket_name r, object_key r)) (matching rs)
       \<and> writes t = map (\<lambda>r. (DEST_BUCKET, output_key (object_key r))) (matching rs)
       \<and> inserts t = map (\<lambda>r. (DEST_BUCKET, output_key (object_key r))) (matching rs)"
  using assms
proof (induction rs arbitrary: h t)
  case Nil
  then show ?case by (simp add: matching_def)
next
  case (Cons r rs)
  show ?case
  proof (cases "bucket_name r \<noteq> SOURCE_BUCKET")
    case True
    with Cons show ?thesis by (simp add: matching_def)
  next
    case False
    obtain t1 res1 where pr: "process_record env h r = (t1, res1)"
      by (cases "process_record env h r") auto
    obtain t2 res2 where rest: "process_records env (h @ t1) rs = (t2, res2)"
      by (cases "process_records env (h @ t1) rs") auto
    from False pr rest Cons.prems obtain v where
      ok: "res1 = Inr v" "res2 = Inr u" "t = t1 @ t2"
      by (cases res1) auto
    from process_record_done [of env h r t1 v] pr ok
    have one: "reads t1 = [(bucket_name r, object_key r)]"
      "writes t1 = [(DEST_BUCKET, output_key (object_key r))]"
      "inserts t1 = [(DEST_BUCKET, output_key (object_key r))]"
      by auto
    from Cons.IH [of "h @ t1" t2] rest ok
    have more: "reads t2 = map (\<lambda>r. (bucket_name r, object_key r)) (matching rs)"
      "writes t2 = map (\<lambda>r. (DEST_BUCKET, output_key (object_key r))) (matching rs)"
      "inserts t2 = map (\<lambda>r. (DEST_BUCKET, output_key (object_key r))) (matching rs)"
      by auto
    from False have "matching (r # rs) = r # matching rs"
      by (simp add: matching_def)
    with one more ok show ?thesis
      by (simp add: reads_append writes_append inserts_append)
  qed
qed


subsection \<open>Runs on the samples\<close>

lemmas sample_defs =
  env_ok_def env_bad_bytes_def env_table_down_def nested_def foreign_def flat_def
  photo_def decoded_def SOURCE_BUCKET_def DEST_BUCKET_def output_key_def basename_def

lemma table_down_run:
  "lambda_handler env_table_down \<lparr> Records = [nested] \<rparr> =
     ([(GetObject ''source-image-azoz'' ''folder/sub/photo.jpg'', None),
       (ImageOpen [255, 216, 255, 224], None),
       (Thumbnail (1024, 1024), None),
       (Save (Some ''JPEG'') True 70, None),
       (PutObject ''resized-image-azoz'' ''resized-photo.jpg'' [255, 216] ''image/jpeg'', None),
       (PutItem \<lparr> imageId = ''6f1c00000'', sourceBucket = ''source-image-azoz'',
                  sourceKey = ''folder/sub/photo.jpg'', destBucket = ''resized-image-azoz'',
                  destKey = ''resized-photo.jpg'', contentType = ''image/jpeg'',
                  sizeOriginal = 4, resizedAt = ''2024-01-01T00:00:00'' \<rparr>,
        Some StoreWriteError)],
      Inl StoreWriteError)"
  by (simp add: lambda_handler_def process_record_def sample_defs Let_def)

lemma ok_batch_done:
  "snd (lambda_handler env_ok \<lparr> Records = [nested, foreign, flat] \<rparr>) = Inr status_done"
  by (simp add: lambda_handler_def process_record_def sample_defs Let_def)

lemma nested_run:
  "process_record env_ok [] nested =
     ([(GetObject ''source-image-azoz'' ''folder/sub/photo.jpg'', None),
       (ImageOpen [255, 216, 255, 224], None),
       (Thumbnail (1024, 1024), None),
       (Save (Some ''JPEG'') True 70, None),
       (PutObject ''resized-image-azoz'' ''resized-photo.jpg'' [255, 216] ''image/jpeg'', None),
       (PutItem \<lparr> imageId = ''6f1c00000'', sourceBucket = ''source-image-azoz'',
                  sourceKey = ''folder/sub/photo.jpg'', destBucket = ''resized-image-azoz'',
                  destKey = ''resized-photo.jpg'', contentType = ''image/jpeg'',
                  sizeOriginal = 4, resizedAt = ''2024-01-01T00:00:00'' \<rparr>, None)],
      Inr ())"
  by (simp add: process_record_def env_ok_def nested_def photo_def decoded_def
      DEST_BUCKET_def output_key_def basename_def Let_def)


subsection \<open>The claims\<close>

text \<open>
  C10: for an invocation whose event has an empty list of records, the handler makes no
  call at all, so no store operation of any kind, and returns \<open>{status: "done"}\<close>.
\<close>

theorem empty_batch_is_done:
  "lambda_handler env \<lparr> Records = [] \<rparr> = ([], Inr status_done)"
  by (simp add: lambda_handler_def)

text \<open>
  C3: a notification whose bucket name differs from the configured source bucket causes
  no call: alone it leaves the trace empty, and inside a batch the invocation makes the
  same calls and ends the same way as if it were not there, so the loop goes on to the
  next notification.
\<close>

theorem other_bucket_is_skipped:
  assumes "bucket_name r \<noteq> SOURCE_BUCKET"
  shows "process_records env h [r] = ([], Inr ())
       \<and> lambda_handler env \<lparr> Records = pre @ r # post \<rparr>
           = lambda_handler env \<lparr> Records = pre @ post \<rparr>"
  using assms by (simp add: lambda_handler_def process_records_skip)

theorem other_bucket_is_skipped_witness:
  "bucket_name foreign \<noteq> SOURCE_BUCKET
   \<and> process_records env_ok [] [foreign] = ([], Inr ())
   \<and> lambda_handler env_ok \<lparr> Records = [nested] @ foreign # [flat] \<rparr>
       = lambda_handler env_ok \<lparr> Records = [nested] @ [flat] \<rparr>"
proof -
  have other: "bucket_name foreign \<noteq> SOURCE_BUCKET"
    by (simp add: foreign_def SOURCE_BUCKET_def)
  show ?thesis
    using other other_bucket_is_skipped [OF other, of env_ok "[]" "[nested]" "[flat]"]
    by simp
qed

text \<open>
  C2: in the calls made for a notification, the key of the destination write and the
  \<open>destKey\<close> of the metadata record are \<open>"resized-"\<close> followed by the basename of the source
  key, and that basename is the final path segment: it holds no \<open>/\<close>, and the key is the
  basename after nothing or after a prefix ending in \<open>/\<close>. The key
  \<open>folder/sub/photo.jpg\<close> gives \<open>resized-photo.jpg\<close>.
\<close>

theorem dest_key_is_resized_basename:
  assumes "(c, out) \<in> set (fst (process_record env h r))"
  shows "(\<forall>b k body ct. c = PutObject b k body ct \<longrightarrow>
            k = ''resized-'' @ basename (object_key r))
       \<and> (\<forall>it. c = PutItem it \<longrightarrow> destKey it = ''resized-'' @ basename (object_key r))
       \<and> CHR ''/'' \<notin> set (basename (object_key r))
       \<and> (\<exists>d. object_key r = d @ basename (object_key r) \<and> (d = [] \<or> last d = CHR ''/''))"
proof -
  from assms have
    "(\<forall>b k body ct. c = PutObject b k body ct \<longrightarrow> k = output_key (object_key r))
     \<and> (\<forall>it. c = PutItem it \<longrightarrow> destKey it = output_key (object_key r))"
    by (auto simp: process_record_def Let_def split: sum.splits)
  with basename_no_sep [of "object_key r"] basename_suffix [of "object_key r"]
  show ?thesis by (simp add: output_key_def)
qed

theorem dest_key_is_resized_basename_witness:
  "(PutObject ''resized-image-azoz'' ''resized-photo.jpg'' [255, 216] ''image/jpeg'', None)
     \<in> set (fst (process_record env_ok [] nested))
   \<and> object_key nested = ''folder/sub/photo.jpg''
   \<and> ''resized-photo.jpg'' = ''resized-'' @ basename ''folder/sub/photo.jpg''"
proof -
  have put: "(PutObject ''resized-image-azoz'' ''resized-photo.jpg'' [255, 216] ''image/jpeg'', None)
     \<in> set (fst (process_record env_ok [] nested))"
    by (simp add: nested_run)
  have key: "object_key nested = ''folder/sub/photo.jpg''"
    by (simp add: nested_def)
  from dest_key_is_resized_basename [OF put] key put show ?thesis
    by simp
qed

text \<open>
  C4: when the loop body runs to its end for a notification, every call returned, the
  store operations are the source read, the destination write and exactly one metadata
  insert, and in the inserted record \<open>sizeOriginal\<close> is the \<open>ContentLength\<close> of the read,
  \<open>destBucket\<close> and \<open>destKey\<close> are the bucket and key of the destination write,
  \<open>contentType\<close> is the source object's, \<open>sourceBucket\<close> and \<open>sourceKey\<close> are the
  notification's, and \<open>imageId\<close> is drawn from the identifier generator after the
  destination write.
\<close>

theorem success_one_metadata_record:
  assumes "process_record env h r = (t, Inr u)"
  shows "\<exists>obj body it.
           get_object env h (bucket_name r) (object_key r) = Inr obj
         \<and> filter store_op (map fst t) =
             [GetObject (bucket_name r) (object_key r),
              PutObject DEST_BUCKET (output_key (object_key r)) body (ContentType obj),
              PutItem it]
         \<and> (\<forall>x\<in>set t. snd x = None)
         \<and> imageId it = uuid4 env (h @ butlast t)
         \<and> sourceBucket it = bucket_name r
         \<and> sourceKey it = object_key r
         \<and> destBucket it = DEST_BUCKET
         \<and> destKey it = output_key (object_key r)
         \<and> contentType it = ContentType obj
         \<and> sizeOriginal it = ContentLength obj
         \<and> resizedAt it = utcnow_isoformat env (h @ butlast t)"
  using assms
  by (auto simp: process_record_def Let_def split: sum.splits)

theorem success_one_metadata_record_witness:
  "\<exists>t. process_record env_ok [] nested = (t, Inr ())
     \<and> (\<exists>obj body it.
           get_object env_ok [] (bucket_name nested) (object_key nested) = Inr obj
         \<and> filter store_op (map fst t) =
             [GetObject (bucket_name nested) (object_key nested),
              PutObject DEST_BUCKET (output_key (object_key nested)) body (ContentType obj),
              PutItem it]
         \<and> imageId it = uuid4 env_ok ([] @ butlast t)
         \<and> sourceBucket it = bucket_name nested
         \<and> sourceKey it = object_key nested
         \<and> destBucket it = DEST_BUCKET
         \<and> destKey it = output_key (object_key nested)
         \<and> contentType it = ContentType obj
         \<and> sizeOriginal it = ContentLength obj
         \<and> resizedAt it = utcnow_isoformat env_ok ([] @ butlast t))"
  using success_one_metadata_record [OF nested_run] nested_run by blast

text \<open>
  C5: no exception is caught or retried. If any call of an invocation raises \<open>e\<close>, that
  call is the last one the invocation makes, the invocation ends with \<open>e\<close> and not with a
  status, and the notifications that follow in the batch change nothing: none of them is
  processed.
\<close>

theorem failure_aborts_batch:
  assumes "(c, Some e) \<in> set (fst (lambda_handler env \<lparr> Records = rs \<rparr>))"
  shows "snd (lambda_handler env \<lparr> Records = rs \<rparr>) = Inl e
       \<and> last (fst (lambda_handler env \<lparr> Records = rs \<rparr>)) = (c, Some e)
       \<and> lambda_handler env \<lparr> Records = rs @ post \<rparr> = lambda_handler env \<lparr> Records = rs \<rparr>"
proof -
  obtain t res where run: "process_records env [] rs = (t, res)"
    by (cases "process_records env [] rs") auto
  with assms have mem: "(c, Some e) \<in> set t"
    by (auto simp: lambda_handler_def split: sum.splits)
  show ?thesis
  proof (cases res)
    case (Inr u)
    with process_records_shape [OF run] mem show ?thesis by auto
  next
    case (Inl e')
    with process_records_shape [OF run] obtain t0 c' where
      sh: "t = t0 @ [(c', Some e')]" "\<forall>x\<in>set t0. snd x = None"
      by auto
    with mem have same: "c' = c" "e' = e" by auto
    from run Inl same have failed: "process_records env [] rs = (t, Inl e)" by simp
    from process_records_failed [OF failed, of post] failed sh same show ?thesis
      by (simp add: lambda_handler_def)
  qed
qed

theorem failure_aborts_batch_witness:
  "(PutItem \<lparr> imageId = ''6f1c00000'', sourceBucket = ''source-image-azoz'',
               sourceKey = ''folder/sub/photo.jpg'', destBucket = ''resized-image-azoz'',
               destKey = ''resized-photo.jpg'', contentType = ''image/jpeg'',
               sizeOriginal = 4, resizedAt = ''2024-01-01T00:00:00'' \<rparr>,
    Some StoreWriteError) \<in> set (fst (lambda_handler env_table_down \<lparr> Records = [nested] \<rparr>))
   \<and> snd (lambda_handler env_table_down \<lparr> Records = [nested] \<rparr>) = Inl StoreWriteError
   \<and> lambda_handler env_table_down \<lparr> Records = [nested] @ [flat] \<rparr>
       = lambda_handler env_table_down \<lparr> Records = [nested] \<rparr>"
proof -
  have raised: "(PutItem \<lparr> imageId = ''6f1c00000'', sourceBucket = ''source-image-azoz'',
               sourceKey = ''folder/sub/photo.jpg'', destBucket = ''resized-image-azoz'',
               destKey = ''resized-photo.jpg'', contentType = ''image/jpeg'',
               sizeOriginal = 4, resizedAt = ''2024-01-01T00:00:00'' \<rparr>,
    Some StoreWriteError) \<in> set (fst (lambda_handler env_table_down \<lparr> Records = [nested] \<rparr>))"
    by (simp add: table_down_run)
  from failure_aborts_batch [OF raised, of "[flat]"] raised show ?thesis
    by simp
qed






text \<open>
  C8: given that \<open>thumbnail\<close> leaves the \<open>format\<close> attribute of the image as \<open>Image.open\<close>
  set it, the one \<open>save\<close> call of a notification is made with the format detected on
  decode, \<open>optimize=True\<close> and \<open>quality=70\<close>; what is written to the destination store is the
  result of that call, under the content type of the source object.
\<close>

theorem reencoded_in_detected_format:
  assumes "get_object env h (bucket_name r) (object_key r) = Inr obj"
      and "Image_open env (Body obj) = Inr opened"
      and "thumbnail env opened (1024, 1024) = Inr img"
      and "format img = format opened"
  shows "filter save_op (map fst (fst (process_record env h r))) = [Save (format opened) True 70]
       \<and> (\<forall>b k body ct out.
             (PutObject b k body ct, out) \<in> set (fst (process_record env h r)) \<longrightarrow>
               ct = ContentType obj \<and> save env img (format opened) True 70 = Inr body)
       \<and> (\<forall>body. save env img (format opened) True 70 = Inr body \<longrightarrow>
             (\<exists>out. (PutObject DEST_BUCKET (output_key (object_key r)) body (ContentType obj), out)
                      \<in> set (fst (process_record env h r))))"
  using assms
  by (auto simp: process_record_def Let_def split: sum.splits)

theorem reencoded_in_detected_format_witness:
  "get_object env_ok [] (bucket_name nested) (object_key nested) = Inr photo
   \<and> Image_open env_ok (Body photo) = Inr decoded
   \<and> thumbnail env_ok decoded (1024, 1024) = Inr (decoded\<lparr>size_wh := (1024, 768), im := [7]\<rparr>)
   \<and> format (decoded\<lparr>size_wh := (1024, 768), im := [7]\<rparr>) = format decoded
   \<and> filter save_op (map fst (fst (process_record env_ok [] nested)))
       = [Save (Some ''JPEG'') True 70]"
proof -
  have got: "get_object env_ok [] (bucket_name nested) (object_key nested) = Inr photo"
    by (simp add: env_ok_def)
  have opened: "Image_open env_ok (Body photo) = Inr decoded"
    by (simp add: env_ok_def)
  have small: "thumbnail env_ok decoded (1024, 1024)
                 = Inr (decoded\<lparr>size_wh := (1024, 768), im := [7]\<rparr>)"
    by (simp add: env_ok_def)
  have kept: "format (decoded\<lparr>size_wh := (1024, 768), im := [7]\<rparr>) = format decoded"
    by simp
  have fmt: "format decoded = Some ''JPEG''"
    by (simp add: decoded_def)
  from reencoded_in_detected_format [OF got opened small kept] got opened small kept fmt
  show ?thesis by simp
qed

text \<open>
  C9: the handler returns \<open>{status: "done"}\<close> exactly when no call of the invocation
  raised, it returns no other value, and when it returns, every notification of the
  source bucket has been read and has its metadata record inserted, in batch order.
\<close>

theorem done_after_all_items:
  "(snd (lambda_handler env ev) = Inr status_done)
     = (\<forall>x\<in>set (fst (lambda_handler env ev)). snd x = None)
   \<and> (\<forall>st. snd (lambda_handler env ev) = Inr st \<longrightarrow>
         st = status_done
         \<and> reads (fst (lambda_handler env ev))
             = map (\<lambda>r. (bucket_name r, object_key r)) (matching (Records ev))
         \<and> inserts (fst (lambda_handler env ev))
             = map (\<lambda>r. (DEST_BUCKET, output_key (object_key r))) (matching (Records ev)))"
proof -
  obtain t res where run: "process_records env [] (Records ev) = (t, res)"
    by (cases "process_records env [] (Records ev)") auto
  show ?thesis
  proof (cases res)
    case (Inl e)
    with process_records_shape [OF run] obtain t0 c where "t = t0 @ [(c, Some e)]"
      by auto
    with run Inl show ?thesis
      by (auto simp: lambda_handler_def)
  next
    case (Inr u)
    with process_records_shape [OF run] have "\<forall>x\<in>set t. snd x = None"
      by simp
    with process_records_done [of env "[]" "Records ev" t u] run Inr show ?thesis
      by (auto simp: lambda_handler_def)
  qed
qed

theorem done_after_all_items_witness:
  "snd (lambda_handler env_ok \<lparr> Records = [nested, foreign, flat] \<rparr>) = Inr status_done
   \<and> reads (fst (lambda_handler env_ok \<lparr> Records = [nested, foreign, flat] \<rparr>))
       = [(''source-image-azoz'', ''folder/sub/photo.jpg''), (''source-image-azoz'', ''dog.png'')]"
proof -
  have fin: "snd (lambda_handler env_ok \<lparr> Records = [nested, foreign, flat] \<rparr>) = Inr status_done"
    by (rule ok_batch_done)
  have batch: "map (\<lambda>r. (bucket_name r, object_key r)) (matching [nested, foreign, flat])
        = [(''source-image-azoz'', ''folder/sub/photo.jpg''), (''source-image-azoz'', ''dog.png'')]"
    by (simp add: matching_def sample_defs)
  from done_after_all_items [of env_ok "\<lparr> Records = [nested, foreign, flat] \<rparr>"] fin batch
  show ?thesis by simp
qed

end
